theory Spec2Isabelle
  imports Main
begin

section \<open>The store (class \<^verbatim>\<open>KVStore\<close>: include/KVStore.hpp and its implementation file)\<close>

text \<open>
  \<^verbatim>\<open>class KVStore\<close> holds \<^verbatim>\<open>std::unordered_map<std::string, std::string> data_\<close>
  and a mutex. The mutex only serialises callers; one caller at a time is modelled,
  so the record keeps the map alone. Every operation takes the store and returns the
  store it leaves behind, next to its C++ return value.
\<close>

record KVStore =
  data :: "string \<rightharpoonup> string"

text \<open>\<^verbatim>\<open>KVStore store;\<close> in main.cpp: the default-constructed, empty store.\<close>

definition KVStore_empty :: KVStore where
  "KVStore_empty = \<lparr>data = Map.empty\<rparr>"

text \<open>\<^verbatim>\<open>KVStore::set\<close>: \<^verbatim>\<open>data_[key] = value;\<close>, returns void.\<close>

definition KVStore_set :: "string \<Rightarrow> string \<Rightarrow> KVStore \<Rightarrow> KVStore" where
  "KVStore_set key val s = s\<lparr>data := (data s)(key \<mapsto> val)\<rparr>"

text \<open>
  \<^verbatim>\<open>KVStore::get\<close>: \<^verbatim>\<open>find\<close> the key; return \<^verbatim>\<open>it->second\<close> when found and
  the empty string otherwise. The store is returned as \<^verbatim>\<open>find\<close> leaves it.
\<close>

definition KVStore_get :: "string \<Rightarrow> KVStore \<Rightarrow> string \<times> KVStore" where
  "KVStore_get key s = (case data s key of Some v \<Rightarrow> (v, s) | None \<Rightarrow> ([], s))"

text \<open>
  \<^verbatim>\<open>KVStore::remove\<close>: when \<^verbatim>\<open>find\<close> succeeds, \<^verbatim>\<open>erase(key)\<close> and return true;
  otherwise return false.
\<close>

definition KVStore_remove :: "string \<Rightarrow> KVStore \<Rightarrow> bool \<times> KVStore" where
  "KVStore_remove key s =
     (if data s key \<noteq> None then (True, s\<lparr>data := (data s)(key := None)\<rparr>)
      else (False, s))"

section \<open>The string stream of one line (server.cpp, \<^verbatim>\<open>std::istringstream iss(line)\<close>)\<close>

text \<open>
  \<^verbatim>\<open>isspace\<close> in the classic "C" locale, which the program never changes: space,
  tab, line feed, vertical tab, form feed, carriage return.
\<close>

definition isspace :: "char \<Rightarrow> bool" where
  "isspace c \<longleftrightarrow>
     c = CHR '' '' \<or> c = CHR 0x09 \<or> c = CHR ''\<newline>'' \<or> c = CHR 0x0B \<or> c = CHR 0x0C \<or> c = CHR 0x0D"

text \<open>
  The stream: the characters not yet read and whether \<^verbatim>\<open>good()\<close> holds. An
  extraction that reaches the end of the characters sets \<^verbatim>\<open>eofbit\<close>, one that
  extracts nothing sets \<^verbatim>\<open>failbit\<close>; the sentry of every later extraction
  only asks \<^verbatim>\<open>good()\<close>, so one flag stands for both bits.
\<close>

record istringstream =
  remaining :: string
  good :: bool

definition istringstream_of :: "string \<Rightarrow> istringstream" where
  "istringstream_of line = \<lparr>remaining = line, good = True\<rparr>"

text \<open>
  \<^verbatim>\<open>iss >> word\<close> into a \<^verbatim>\<open>std::string\<close> that is still empty (each target in
  \<^verbatim>\<open>handle_client\<close> is declared right before its extraction). A stream that is
  not good leaves the target as it is. Otherwise leading white space is skipped;
  when nothing follows, the extraction fails and the target stays empty; else the
  characters up to the next white space (or the end) are the word.
\<close>

definition extract_word :: "istringstream \<Rightarrow> string \<times> istringstream" where
  "extract_word iss =
     (if \<not> good iss then ([], iss)
      else
        let r = dropWhile isspace (remaining iss) in
        if r = [] then ([], \<lparr>remaining = [], good = False\<rparr>)
        else
          let word = takeWhile (\<lambda>c. \<not> isspace c) r;
              r' = dropWhile (\<lambda>c. \<not> isspace c) r
          in (word, \<lparr>remaining = r', good = (r' \<noteq> [])\<rparr>))"

text \<open>
  \<^verbatim>\<open>std::getline(iss, value)\<close> into an empty \<^verbatim>\<open>value\<close>: nothing on a stream that
  is not good; otherwise every character up to the next line feed, which is consumed
  and not stored, or up to the end of the stream.
\<close>

definition getline :: "istringstream \<Rightarrow> string \<times> istringstream" where
  "getline iss =
     (if \<not> good iss then ([], iss)
      else
        let s = takeWhile (\<lambda>c. c \<noteq> CHR ''\<newline>'') (remaining iss);
            r' = dropWhile (\<lambda>c. c \<noteq> CHR ''\<newline>'') (remaining iss)
        in if r' = [] then (s, \<lparr>remaining = [], good = False\<rparr>)
           else (s, \<lparr>remaining = tl r', good = True\<rparr>))"

section \<open>One command line (server.cpp, \<^verbatim>\<open>Server::handle_client\<close>, lines 221 to 269)\<close>

text \<open>
  \<^verbatim>\<open>if (!value.empty() && value[0] == ' ') value.erase(0, 1);\<close>
\<close>

definition erase_leading_space :: "string \<Rightarrow> string" where
  "erase_leading_space val =
     (case val of [] \<Rightarrow> [] | c # r \<Rightarrow> if c = CHR '' '' then r else val)"

text \<open>
  From \<^verbatim>\<open>std::istringstream iss(line)\<close> to the end of the \<^verbatim>\<open>if\<close> chain: the
  response built for a non-empty line and the store after the call made for it.
  The command words compared are \<^verbatim>\<open>"SET"\<close>, \<^verbatim>\<open>"GET"\<close> and \<^verbatim>\<open>"DEL"\<close>.
\<close>

definition handle_line :: "string \<Rightarrow> KVStore \<Rightarrow> string \<times> KVStore" where
  "handle_line line store =
     (let (command, iss1) = extract_word (istringstream_of line) in
      if command = ''SET'' then
        let (key, iss2) = extract_word iss1;
            (val0, iss3) = getline iss2;
            val = erase_leading_space val0
        in if key \<noteq> [] \<and> val \<noteq> [] then (''OK\<newline>'', KVStore_set key val store)
           else (''ERROR: SET requires key and value\<newline>'', store)
      else if command = ''GET'' then
        let (key, iss2) = extract_word iss1
        in if key \<noteq> [] then
             let (val, store') = KVStore_get key store
             in if val \<noteq> [] then (val @ ''\<newline>'', store')
                else (''NOT_FOUND\<newline>'', store')
           else (''ERROR: GET requires key\<newline>'', store)
      else if command = ''DEL'' then
        let (key, iss2) = extract_word iss1
        in if key \<noteq> [] then
             let (deleted, store') = KVStore_remove key store
             in (if deleted then ''DELETED\<newline>'' else ''NOT_FOUND\<newline>'', store')
           else (''ERROR: DEL requires key\<newline>'', store)
      else (''ERROR: Unknown command\<newline>'', store))"

section \<open>The connection (server.cpp, \<^verbatim>\<open>Server::handle_client\<close>, lines 195 to 281)\<close>

text \<open>
  What one handler works on: the store behind \<^verbatim>\<open>store_\<close>, the accumulation
  \<^verbatim>\<open>buffer\<close>, and the socket, seen through the responses handed to \<^verbatim>\<open>write\<close> in
  call order (\<open>writes\<close>) and whether \<^verbatim>\<open>close(client_socket)\<close> has run
  (\<open>closed\<close>). \<open>extracted\<close> logs the values \<^verbatim>\<open>line\<close> takes at
  \<^verbatim>\<open>std::string line = buffer.substr(0, pos)\<close>, in order; the code keeps no such
  log, it is there to state what the loop extracts.
\<close>

record conn =
  store :: KVStore
  buffer :: string
  writes :: "string list"
  extracted :: "string list"
  closed :: bool

text \<open>\<^verbatim>\<open>buffer.find(ch)\<close>: the index of the first occurrence, \<open>None\<close> for \<^verbatim>\<open>npos\<close>.\<close>

fun find_char :: "char \<Rightarrow> string \<Rightarrow> nat option" where
  "find_char ch [] = None"
| "find_char ch (x # xs) = (if x = ch then Some 0 else map_option Suc (find_char ch xs))"

text \<open>
  \<^verbatim>\<open>buffer += chunk\<close> appends a \<^verbatim>\<open>char\<close> array, that is a C string: the bytes
  read, up to the first zero byte among them (the array is zeroed before the read
  and terminated after it).
\<close>

definition c_str :: "string \<Rightarrow> string" where
  "c_str chunk = takeWhile (\<lambda>c. c \<noteq> CHR 0x00) chunk"

text \<open>
  The inner loop \<^verbatim>\<open>while ((pos = buffer.find('\n')) != npos)\<close>. The outcome of
  the n-th call of \<^verbatim>\<open>write\<close> on this socket (counting from 0) is \<open>w n\<close>, the
  value \<^verbatim>\<open>write\<close> returns: negative for a failure. A failed write closes the socket
  and returns from the handler; the state is returned with \<open>closed\<close> set.
\<close>

function inner_loop :: "(nat \<Rightarrow> int) \<Rightarrow> conn \<Rightarrow> conn" where
  "inner_loop w c =
     (case find_char (CHR ''\<newline>'') (buffer c) of
        None \<Rightarrow> c
      | Some pos \<Rightarrow>
          let line = take pos (buffer c);
              c1 = c\<lparr>buffer := drop (pos + 1) (buffer c), extracted := extracted c @ [line]\<rparr>
          in if line = [] then inner_loop w c1
             else
               let (response, store') = handle_line line (store c1);
                   bytes_written = w (length (writes c1));
                   c2 = c1\<lparr>store := store', writes := writes c1 @ [response]\<rparr>
               in if bytes_written < 0 then c2\<lparr>closed := True\<rparr>
                  else inner_loop w c2)"
  by pat_completeness auto
termination
proof -
  have less: "find_char ch xs = Some pos \<Longrightarrow> pos < length xs" for ch xs pos
    by (induction xs arbitrary: pos) (auto split: if_splits)
  show ?thesis
    by (relation "measure (\<lambda>(w, c). length (buffer c))") (auto dest: less)
qed

text \<open>
  One turn of the outer loop after a \<^verbatim>\<open>read\<close> that returned at least one byte:
  append the chunk, then run the inner loop.
\<close>

definition on_chunk :: "(nat \<Rightarrow> int) \<Rightarrow> conn \<Rightarrow> string \<Rightarrow> conn" where
  "on_chunk w c chunk = inner_loop w (c\<lparr>buffer := buffer c @ c_str chunk\<rparr>)"

text \<open>
  The outer loop \<^verbatim>\<open>while (true)\<close> over the results of the successive \<^verbatim>\<open>read\<close>
  calls: a chunk is the bytes one \<^verbatim>\<open>read\<close> delivered (at most 1023, the size asked
  for); the empty chunk, or the end of the list, is a \<^verbatim>\<open>read\<close> that returned 0 or
  less, which leaves the loop for the final \<^verbatim>\<open>close\<close>. The handler starts with its
  socket open, so a socket found closed after the inner loop means that the loop
  returned from the handler on a failed write: no further chunk is read.
\<close>

fun read_loop :: "(nat \<Rightarrow> int) \<Rightarrow> string list \<Rightarrow> conn \<Rightarrow> conn" where
  "read_loop w [] c = c\<lparr>closed := True\<rparr>"
| "read_loop w (chunk # reads) c =
     (if chunk = [] then c\<lparr>closed := True\<rparr>
      else
        let c' = on_chunk w c chunk
        in if closed c' then c' else read_loop w reads c')"

text \<open>
  The state \<^verbatim>\<open>Server::handle_client\<close> starts in: \<^verbatim>\<open>std::string buffer;\<close> is empty,
  nothing has been written, the socket is open.
\<close>

definition fresh_conn :: "KVStore \<Rightarrow> conn" where
  "fresh_conn st = \<lparr>store = st, buffer = [], writes = [], extracted = [], closed = False\<rparr>"

text \<open>\<^verbatim>\<open>Server::handle_client\<close>, from its first line to its return.\<close>

definition handle_client :: "(nat \<Rightarrow> int) \<Rightarrow> string list \<Rightarrow> KVStore \<Rightarrow> conn" where
  "handle_client w reads st = read_loop w reads (fresh_conn st)"

subsection \<open>Two sockets to run the handler on\<close>

text \<open>
  A socket on which every \<^verbatim>\<open>write\<close> succeeds, and one on which exactly the k-th
  fails: the handler only asks whether the value returned is negative.
\<close>

definition writes_ok :: "nat \<Rightarrow> int" where
  "writes_ok n = 0"

definition write_fails_at :: "nat \<Rightarrow> nat \<Rightarrow> int" where
  "write_fails_at k n = (if n = k then - 1 else 0)"

section \<open>The protocol in the words of the specification\<close>




section \<open>Auxiliary facts\<close>

subsection \<open>Unfolding the inner loop\<close>

declare inner_loop.simps [simp del]

lemma find_char_append: "find_char ch xs = Some pos \<Longrightarrow> find_char ch (xs @ ys) = Some pos"
  by (induction xs arbitrary: pos) (auto split: if_splits)

lemma find_char_less: "find_char ch xs = Some pos \<Longrightarrow> pos < length xs"
  by (induction xs arbitrary: pos) (auto split: if_splits)

lemma find_char_first: "ch \<notin> set l \<Longrightarrow> find_char ch (l @ ch # r) = Some (length l)"
  by (induction l) auto

lemma inner_loop_Some:
  assumes "find_char (CHR ''\<newline>'') (buffer c) = Some pos"
    and "line = take pos (buffer c)"
    and "c1 = c\<lparr>buffer := drop (pos + 1) (buffer c), extracted := extracted c @ [line]\<rparr>"
    and "c2 = c1\<lparr>store := snd (handle_line line (store c1)),
                  writes := writes c1 @ [fst (handle_line line (store c1))]\<rparr>"
  shows "inner_loop w c =
           (if line = [] then inner_loop w c1
            else if w (length (writes c1)) < 0 then c2\<lparr>closed := True\<rparr>
            else inner_loop w c2)"
  using assms by (simp add: inner_loop.simps [of w c] Let_def split: prod.split)

lemma inner_loop_None: "find_char (CHR ''\<newline>'') (buffer c) = None \<Longrightarrow> inner_loop w c = c"
  by (simp add: inner_loop.simps [of w c])

lemma inner_loop_append:
  "\<not> closed c \<Longrightarrow>
   inner_loop w (c\<lparr>buffer := buffer c @ X\<rparr>) =
     (let c1 = inner_loop w c
      in if closed c1 then c1\<lparr>buffer := buffer c1 @ X\<rparr>
         else inner_loop w (c1\<lparr>buffer := buffer c1 @ X\<rparr>))"
proof (induction w c rule: inner_loop.induct)
  case (1 w c)
  define cX where "cX = c\<lparr>buffer := buffer c @ X\<rparr>"
  show ?case
  proof (cases "find_char (CHR ''\<newline>'') (buffer c)")
    case None
    then show ?thesis using "1.prems" by (simp add: inner_loop_None)
  next
    case (Some pos)
    have lt: "pos < length (buffer c)" using Some by (rule find_char_less)
    have app: "find_char (CHR ''\<newline>'') (buffer cX) = Some pos"
      using Some by (simp add: cX_def find_char_append)
    define line where "line = take pos (buffer c)"
    define c1 where "c1 = c\<lparr>buffer := drop (pos + 1) (buffer c), extracted := extracted c @ [line]\<rparr>"
    define c2 where "c2 = c1\<lparr>store := snd (handle_line line (store c1)),
                              writes := writes c1 @ [fst (handle_line line (store c1))]\<rparr>"
    define d1 where "d1 = c1\<lparr>buffer := buffer c1 @ X\<rparr>"
    define d2 where "d2 = c2\<lparr>buffer := buffer c2 @ X\<rparr>"
    have lineX: "line = take pos (buffer cX)"
      using lt by (simp add: cX_def line_def)
    have d1X: "d1 = cX\<lparr>buffer := drop (pos + 1) (buffer cX), extracted := extracted cX @ [line]\<rparr>"
      using lt by (simp add: cX_def c1_def d1_def)
    have d2X: "d2 = d1\<lparr>store := snd (handle_line line (store d1)),
                        writes := writes d1 @ [fst (handle_line line (store d1))]\<rparr>"
      by (simp add: d1_def d2_def c2_def)
    have L: "inner_loop w cX =
               (if line = [] then inner_loop w d1
                else if w (length (writes d1)) < 0 then d2\<lparr>closed := True\<rparr>
                else inner_loop w d2)"
      by (rule inner_loop_Some [OF app lineX d1X d2X])
    have R: "inner_loop w c =
               (if line = [] then inner_loop w c1
                else if w (length (writes c1)) < 0 then c2\<lparr>closed := True\<rparr>
                else inner_loop w c2)"
      by (rule inner_loop_Some [OF Some line_def c1_def c2_def])
    have wr: "writes d1 = writes c1" by (simp add: d1_def)
    have nc1: "\<not> closed c1" using "1.prems" by (simp add: c1_def)
    have nc2: "\<not> closed c2" using nc1 by (simp add: c2_def)
    show ?thesis
    proof (cases "line = []")
      case True
      show ?thesis
        using "1.IH"(1) [OF Some line_def c1_def True nc1] L R True
        by (simp add: cX_def [symmetric] d1_def [symmetric])
    next
      case False
      show ?thesis
      proof (cases "w (length (writes c1)) < 0")
        case True
        then show ?thesis using L R False wr
          by (simp add: cX_def [symmetric] d2_def)
      next
        case wok: False
        have c2': "c2 = c1\<lparr>store := snd (handle_line line (store c1)),
                              writes := writes c1 @ [fst (handle_line line (store c1))]\<rparr>"
          by (rule c2_def)
        show ?thesis
          using "1.IH"(2) [OF Some line_def c1_def False refl prod.collapse refl c2' wok nc2]
            L R wok False wr
          by (simp add: cX_def [symmetric] d2_def [symmetric])
      qed
    qed
  qed
qed


lemma c_str_no_zero: "CHR 0x00 \<notin> set chunk \<Longrightarrow> c_str chunk = chunk"
  by (auto simp: c_str_def takeWhile_eq_all_conv)

lemma inner_loop_line:
  assumes "CHR ''\<newline>'' \<notin> set l"
  shows "inner_loop w (c\<lparr>buffer := l @ CHR ''\<newline>'' # rest\<rparr>) =
           (if l = [] then inner_loop w (c\<lparr>buffer := rest, extracted := extracted c @ [l]\<rparr>)
            else if w (length (writes c)) < 0
            then c\<lparr>buffer := rest, extracted := extracted c @ [l],
                   store := snd (handle_line l (store c)),
                   writes := writes c @ [fst (handle_line l (store c))], closed := True\<rparr>
            else inner_loop w (c\<lparr>buffer := rest, extracted := extracted c @ [l],
                   store := snd (handle_line l (store c)),
                   writes := writes c @ [fst (handle_line l (store c))]\<rparr>))"
proof -
  define c0 where "c0 = c\<lparr>buffer := l @ CHR ''\<newline>'' # rest\<rparr>"
  have f: "find_char (CHR ''\<newline>'') (buffer c0) = Some (length l)"
    using assms by (simp add: c0_def find_char_first)
  have "inner_loop w c0 =
          (if l = [] then inner_loop w (c\<lparr>buffer := rest, extracted := extracted c @ [l]\<rparr>)
            else if w (length (writes (c\<lparr>buffer := rest, extracted := extracted c @ [l]\<rparr>))) < 0
            then c\<lparr>buffer := rest, extracted := extracted c @ [l],
                   store := snd (handle_line l (store c)),
                   writes := writes c @ [fst (handle_line l (store c))]\<rparr>\<lparr>closed := True\<rparr>
            else inner_loop w (c\<lparr>buffer := rest, extracted := extracted c @ [l],
                   store := snd (handle_line l (store c)),
                   writes := writes c @ [fst (handle_line l (store c))]\<rparr>))"
    by (rule inner_loop_Some [OF f]) (simp_all add: c0_def)
  then show ?thesis by (simp add: c0_def)
qed


subsection \<open>A delivery cut in two\<close>

text \<open>
  On an open connection, when the first of two deliveries holds no zero byte, handing
  the handler the two one after the other (the second only if the handler has not
  returned on a failed write) extracts the same lines in the same order as handing it
  their concatenation; the responses written, the store and the state of the socket
  agree as well, and so does the buffer left over while the connection is open.
\<close>

lemma c_str_append: "CHR 0x00 \<notin> set a \<Longrightarrow> c_str (a @ b) = a @ c_str b"
  unfolding c_str_def by (rule takeWhile_append2) auto

lemma two_deliveries:
  assumes "\<not> closed c" and "CHR 0x00 \<notin> set a"
  shows "let one = on_chunk w c (a @ b);
             c1 = on_chunk w c a;
             two = (if closed c1 then c1 else on_chunk w c1 b)
         in extracted two = extracted one \<and> writes two = writes one \<and> store two = store one
            \<and> closed two = closed one \<and> (\<not> closed one \<longrightarrow> buffer two = buffer one)"
proof -
  define c' where "c' = c\<lparr>buffer := buffer c @ a\<rparr>"
  have nc: "\<not> closed c'" using assms(1) by (simp add: c'_def)
  have one: "on_chunk w c (a @ b) = inner_loop w (c'\<lparr>buffer := buffer c' @ c_str b\<rparr>)"
    using assms(2) by (simp add: on_chunk_def c_str_append c'_def)
  have c1: "on_chunk w c a = inner_loop w c'"
    using assms(2) by (simp add: on_chunk_def c_str_no_zero c'_def)
  show ?thesis
    unfolding one c1 on_chunk_def [of w _ b] inner_loop_append [OF nc, of w "c_str b"]
    by (simp add: Let_def)
qed

text \<open>
  The instance of the specification: \<^verbatim>\<open>SE\<close> and then \<^verbatim>\<open>T k v\<close> with its line feed give
  the one line \<^verbatim>\<open>SET k v\<close>, as the whole line does in one delivery.
\<close>

lemma two_deliveries_SET:
  "extracted (on_chunk writes_ok (on_chunk writes_ok (fresh_conn KVStore_empty) ''SE'') ''T k v\<newline>'')
       = [''SET k v'']
   \<and> extracted (on_chunk writes_ok (fresh_conn KVStore_empty) (''SE'' @ ''T k v\<newline>'')) = [''SET k v'']
   \<and> writes (on_chunk writes_ok (fresh_conn KVStore_empty) (''SE'' @ ''T k v\<newline>'')) = [''OK\<newline>'']"
  using two_deliveries [of "fresh_conn KVStore_empty" "''SE''" writes_ok "''T k v\<newline>''"]
  by (simp add: fresh_conn_def on_chunk_def c_str_def writes_ok_def inner_loop.simps
        handle_line_def extract_word_def getline_def istringstream_of_def isspace_def
        erase_leading_space_def)

subsection \<open>Words of a line\<close>

lemma dropWhile_blank:
  "list_all isspace ws \<Longrightarrow> t = [] \<or> \<not> isspace (hd t) \<Longrightarrow> dropWhile isspace (ws @ t) = t"
  by (induction ws) (cases t; simp)+

lemma takeWhile_word:
  "list_all (\<lambda>c. \<not> isspace c) k \<Longrightarrow> r = [] \<or> isspace (hd r) \<Longrightarrow>
   takeWhile (\<lambda>c. \<not> isspace c) (k @ r) = k"
  by (induction k) (cases r; simp)+

lemma dropWhile_word:
  "list_all (\<lambda>c. \<not> isspace c) k \<Longrightarrow> r = [] \<or> isspace (hd r) \<Longrightarrow>
   dropWhile (\<lambda>c. \<not> isspace c) (k @ r) = r"
  by (induction k) (cases r; simp)+

lemma extract_word_word:
  assumes "list_all isspace ws" and "k \<noteq> []" and "list_all (\<lambda>c. \<not> isspace c) k"
    and "r = [] \<or> isspace (hd r)"
  shows "extract_word \<lparr>remaining = ws @ k @ r, good = True\<rparr> =
           (k, \<lparr>remaining = r, good = (r \<noteq> [])\<rparr>)"
proof -
  have "k @ r = [] \<or> \<not> isspace (hd (k @ r))"
    using assms(2,3) by (cases k) auto
  then have "dropWhile isspace (ws @ k @ r) = k @ r"
    using assms(1) by (rule dropWhile_blank [rotated])
  then show ?thesis
    using assms by (simp add: extract_word_def takeWhile_word dropWhile_word)
qed

lemma extract_word_blank:
  assumes "list_all isspace ws"
  shows "fst (extract_word \<lparr>remaining = ws, good = g\<rparr>) = []
         \<and> \<not> good (snd (extract_word \<lparr>remaining = ws, good = g\<rparr>))"
proof -
  have "dropWhile isspace (ws @ []) = []"
    using assms by (rule dropWhile_blank) simp
  then show ?thesis by (simp add: extract_word_def)
qed

lemma getline_not_good: "\<not> good iss \<Longrightarrow> getline iss = ([], iss)"
  by (simp add: getline_def)

lemma getline_rest:
  "CHR ''\<newline>'' \<notin> set r \<Longrightarrow> r \<noteq> [] \<Longrightarrow> fst (getline \<lparr>remaining = r, good = True\<rparr>) = r"
  by (simp add: getline_def Let_def takeWhile_eq_all_conv)




lemma command_word:
  assumes "list_all isspace ws0" and "cmd \<noteq> []" and "list_all (\<lambda>c. \<not> isspace c) cmd"
    and "t = [] \<or> isspace (hd t)"
  shows "extract_word (istringstream_of (ws0 @ cmd @ t)) = (cmd, \<lparr>remaining = t, good = (t \<noteq> [])\<rparr>)"
  unfolding istringstream_of_def using assms by (rule extract_word_word)

lemma command_then_key:
  assumes "list_all isspace ws0" and "cmd \<noteq> []" and "list_all (\<lambda>c. \<not> isspace c) cmd"
    and "list_all isspace ws1" and "ws1 \<noteq> []"
    and "k \<noteq> []" and "list_all (\<lambda>c. \<not> isspace c) k" and "r = [] \<or> isspace (hd r)"
  shows "extract_word (istringstream_of (ws0 @ cmd @ ws1 @ k @ r)) =
           (cmd, \<lparr>remaining = ws1 @ k @ r, good = True\<rparr>)"
    and "extract_word \<lparr>remaining = ws1 @ k @ r, good = True\<rparr> = (k, \<lparr>remaining = r, good = (r \<noteq> [])\<rparr>)"
proof -
  have "ws1 @ k @ r = [] \<or> isspace (hd (ws1 @ k @ r))"
    using assms(4,5) by (cases ws1) auto
  from command_word [OF assms(1,2,3) this] assms(5)
  show "extract_word (istringstream_of (ws0 @ cmd @ ws1 @ k @ r)) =
           (cmd, \<lparr>remaining = ws1 @ k @ r, good = True\<rparr>)"
    by simp
  show "extract_word \<lparr>remaining = ws1 @ k @ r, good = True\<rparr> = (k, \<lparr>remaining = r, good = (r \<noteq> [])\<rparr>)"
    using assms(4,6,7,8) by (rule extract_word_word)
qed

lemma command_alone:
  assumes "list_all isspace ws0" and "cmd \<noteq> []" and "list_all (\<lambda>c. \<not> isspace c) cmd"
    and "list_all isspace ws1"
  shows "extract_word (istringstream_of (ws0 @ cmd @ ws1)) = (cmd, \<lparr>remaining = ws1, good = (ws1 \<noteq> [])\<rparr>)"
    and "fst (extract_word \<lparr>remaining = ws1, good = (ws1 \<noteq> [])\<rparr>) = []"
    and "\<not> good (snd (extract_word \<lparr>remaining = ws1, good = (ws1 \<noteq> [])\<rparr>))"
proof -
  have "ws1 = [] \<or> isspace (hd ws1)"
    using assms(4) by (cases ws1) auto
  from command_word [OF assms(1,2,3) this]
  show "extract_word (istringstream_of (ws0 @ cmd @ ws1)) = (cmd, \<lparr>remaining = ws1, good = (ws1 \<noteq> [])\<rparr>)" .
  show "fst (extract_word \<lparr>remaining = ws1, good = (ws1 \<noteq> [])\<rparr>) = []"
    and "\<not> good (snd (extract_word \<lparr>remaining = ws1, good = (ws1 \<noteq> [])\<rparr>))"
    using extract_word_blank [OF assms(4)] by simp_all
qed

lemma word_SET: "''SET'' \<noteq> [] \<and> list_all (\<lambda>c. \<not> isspace c) ''SET''"
  by (simp add: isspace_def)

lemma word_GET: "''GET'' \<noteq> [] \<and> list_all (\<lambda>c. \<not> isspace c) ''GET''"
  by (simp add: isspace_def)

lemma word_DEL: "''DEL'' \<noteq> [] \<and> list_all (\<lambda>c. \<not> isspace c) ''DEL''"
  by (simp add: isspace_def)

subsection \<open>The response to a line, by command\<close>

lemma handle_line_GET:
  assumes "extract_word (istringstream_of line) = (''GET'', iss1)"
  shows "handle_line line s =
           (if fst (extract_word iss1) \<noteq> [] then
              (if fst (KVStore_get (fst (extract_word iss1)) s) \<noteq> []
               then fst (KVStore_get (fst (extract_word iss1)) s) @ ''\<newline>''
               else ''NOT_FOUND\<newline>'', s)
            else (''ERROR: GET requires key\<newline>'', s))"
  using assms by (simp add: handle_line_def KVStore_get_def split: prod.split option.split)

lemma handle_line_DEL:
  assumes "extract_word (istringstream_of line) = (''DEL'', iss1)"
  shows "handle_line line s =
           (if fst (extract_word iss1) \<noteq> [] then
              (if fst (extract_word iss1) \<in> dom (data s) then ''DELETED\<newline>'' else ''NOT_FOUND\<newline>'',
               snd (KVStore_remove (fst (extract_word iss1)) s))
            else (''ERROR: DEL requires key\<newline>'', s))"
  using assms by (auto simp: handle_line_def KVStore_remove_def split: prod.split)

lemma handle_line_SET:
  assumes "extract_word (istringstream_of line) = (''SET'', iss1)"
  shows "handle_line line s =
           (let key = fst (extract_word iss1);
                val = erase_leading_space (fst (getline (snd (extract_word iss1))))
            in if key \<noteq> [] \<and> val \<noteq> [] then (''OK\<newline>'', KVStore_set key val s)
               else (''ERROR: SET requires key and value\<newline>'', s))"
  using assms by (simp add: handle_line_def Let_def split: prod.split)


lemma handle_GET_key:
  assumes "list_all isspace ws0" and "list_all isspace ws1" and "ws1 \<noteq> []"
    and "k \<noteq> []" and "list_all (\<lambda>c. \<not> isspace c) k" and "r = [] \<or> isspace (hd r)"
  shows "handle_line (ws0 @ ''GET'' @ ws1 @ k @ r) s =
           (if fst (KVStore_get k s) \<noteq> [] then fst (KVStore_get k s) @ ''\<newline>'' else ''NOT_FOUND\<newline>'', s)"
proof -
  note ck = command_then_key [OF assms(1) word_GET [THEN conjunct1] word_GET [THEN conjunct2] assms(2-6)]
  show ?thesis
    unfolding handle_line_GET [OF ck(1)] ck(2) using assms(4) by simp
qed

lemma handle_DEL_key:
  assumes "list_all isspace ws0" and "list_all isspace ws1" and "ws1 \<noteq> []"
    and "k \<noteq> []" and "list_all (\<lambda>c. \<not> isspace c) k" and "r = [] \<or> isspace (hd r)"
  shows "handle_line (ws0 @ ''DEL'' @ ws1 @ k @ r) s =
           (if k \<in> dom (data s) then ''DELETED\<newline>'' else ''NOT_FOUND\<newline>'', snd (KVStore_remove k s))"
proof -
  note ck = command_then_key [OF assms(1) word_DEL [THEN conjunct1] word_DEL [THEN conjunct2] assms(2-6)]
  show ?thesis
    unfolding handle_line_DEL [OF ck(1)] ck(2) using assms(4) by simp
qed

lemma handle_SET_key:
  assumes "list_all isspace ws0" and "list_all isspace ws1" and "ws1 \<noteq> []"
    and "k \<noteq> []" and "list_all (\<lambda>c. \<not> isspace c) k" and "r = [] \<or> isspace (hd r)"
    and "CHR ''\<newline>'' \<notin> set r"
  shows "handle_line (ws0 @ ''SET'' @ ws1 @ k @ r) s =
           (if erase_leading_space r \<noteq> [] then (''OK\<newline>'', KVStore_set k (erase_leading_space r) s)
            else (''ERROR: SET requires key and value\<newline>'', s))"
proof -
  note ck = command_then_key [OF assms(1) word_SET [THEN conjunct1] word_SET [THEN conjunct2] assms(2-6)]
  have gl: "fst (getline \<lparr>remaining = r, good = (r \<noteq> [])\<rparr>) = r"
  proof (cases "r = []")
    case True
    then show ?thesis by (simp add: getline_not_good)
  next
    case False
    then show ?thesis using assms(7) by (simp add: getline_rest)
  qed
  show ?thesis
    unfolding handle_line_SET [OF ck(1)] ck(2) using assms(4) gl by simp
qed

lemma handle_no_key:
  assumes "list_all isspace ws0" and "list_all isspace ws1"
  shows "handle_line (ws0 @ ''SET'' @ ws1) s = (''ERROR: SET requires key and value\<newline>'', s)"
    and "handle_line (ws0 @ ''GET'' @ ws1) s = (''ERROR: GET requires key\<newline>'', s)"
    and "handle_line (ws0 @ ''DEL'' @ ws1) s = (''ERROR: DEL requires key\<newline>'', s)"
proof -
  note cs = command_alone [OF assms(1) word_SET [THEN conjunct1] word_SET [THEN conjunct2] assms(2)]
  note cg = command_alone [OF assms(1) word_GET [THEN conjunct1] word_GET [THEN conjunct2] assms(2)]
  note cd = command_alone [OF assms(1) word_DEL [THEN conjunct1] word_DEL [THEN conjunct2] assms(2)]
  show "handle_line (ws0 @ ''SET'' @ ws1) s = (''ERROR: SET requires key and value\<newline>'', s)"
    unfolding handle_line_SET [OF cs(1)] using cs(2) by simp
  show "handle_line (ws0 @ ''GET'' @ ws1) s = (''ERROR: GET requires key\<newline>'', s)"
    unfolding handle_line_GET [OF cg(1)] using cg(2) by simp
  show "handle_line (ws0 @ ''DEL'' @ ws1) s = (''ERROR: DEL requires key\<newline>'', s)"
    unfolding handle_line_DEL [OF cd(1)] using cd(2) by simp
qed



section \<open>Properties of the store\<close>

text \<open>
  Claim C3. For every key k and every value v (the non-empty ones in particular),
  \<^verbatim>\<open>set(k, v)\<close> followed by \<^verbatim>\<open>get(k)\<close> on the resulting store returns v: set is a
  total function, and the read that follows it sees the value written.
\<close>

theorem set_then_get:
  "fst (KVStore_get k (KVStore_set k v s)) = v"
  by (simp add: KVStore_get_def KVStore_set_def)

text \<open>
  Claim C4. \<^verbatim>\<open>remove(k)\<close> returns true exactly when k is in the store before the
  call; after the call k is absent; hence a second \<^verbatim>\<open>remove(k)\<close> right after the
  first returns false, so that on a present key the two calls return true, then false.
\<close>

theorem remove_reports_presence:
  "fst (KVStore_remove k s) = (k \<in> dom (data s))
   \<and> k \<notin> dom (data (snd (KVStore_remove k s)))
   \<and> fst (KVStore_remove k (snd (KVStore_remove k s))) = False"
  by (auto simp: KVStore_remove_def)

text \<open>
  Claim C9. \<^verbatim>\<open>get\<close> returns the store exactly as it found it; \<^verbatim>\<open>set(k, v)\<close> and
  \<^verbatim>\<open>remove(k)\<close> leave the entry of every key other than k as it was.
\<close>

theorem store_frame:
  "snd (KVStore_get k s) = s
   \<and> (\<forall>k'. k' \<noteq> k \<longrightarrow>
         data (KVStore_set k v s) k' = data s k'
       \<and> data (snd (KVStore_remove k s)) k' = data s k')"
  by (simp add: KVStore_get_def KVStore_set_def KVStore_remove_def split: option.split)

theorem store_frame_witness:
  "snd (KVStore_get ''a'' (KVStore_set ''b'' ''1'' KVStore_empty)) = KVStore_set ''b'' ''1'' KVStore_empty
   \<and> ''b'' \<noteq> ''a''
   \<and> data (KVStore_set ''a'' ''2'' (KVStore_set ''b'' ''1'' KVStore_empty)) ''b'' = Some ''1''
   \<and> data (snd (KVStore_remove ''a'' (KVStore_set ''b'' ''1'' KVStore_empty))) ''b'' = Some ''1''"
  using store_frame [of "''a''" "KVStore_set ''b'' ''1'' KVStore_empty" "''2''"]
  by (simp add: KVStore_set_def KVStore_empty_def)

section \<open>Properties of the command lines\<close>

text \<open>
  Below, a line is written by its parts: white space \<open>ws0\<close>, the command word, white
  space \<open>ws1\<close>, the key \<open>k\<close> (a non-empty run of characters that are not white
  space), and the rest \<open>r\<close> of the line, which is empty or starts with white space.
\<close>

text \<open>
  Claim C1, as the code has it: the command word is \<^verbatim>\<open>DEL\<close>. For every line whose
  first token is \<^verbatim>\<open>DEL\<close>, followed by a key, the handler calls \<^verbatim>\<open>remove\<close> for that key
  and answers \<^verbatim>\<open>DELETED\<close> when the key was in the store and \<^verbatim>\<open>NOT_FOUND\<close> when it was
  not; a \<^verbatim>\<open>DEL\<close> line without a key is answered \<^verbatim>\<open>ERROR: DEL requires key\<close> and
  leaves the store alone.
\<close>

theorem del_line:
  assumes "list_all isspace ws0" and "list_all isspace ws1"
  shows "(ws1 \<noteq> [] \<and> k \<noteq> [] \<and> list_all (\<lambda>c. \<not> isspace c) k \<and> (r = [] \<or> isspace (hd r)) \<longrightarrow>
            handle_line (ws0 @ ''DEL'' @ ws1 @ k @ r) s =
              (if k \<in> dom (data s) then ''DELETED\<newline>'' else ''NOT_FOUND\<newline>'',
               snd (KVStore_remove k s)))
         \<and> handle_line (ws0 @ ''DEL'' @ ws1) s = (''ERROR: DEL requires key\<newline>'', s)"
  using handle_DEL_key [OF assms, of k r s] handle_no_key(3) [OF assms, of s] by blast

theorem del_line_witness:
  "list_all isspace [] \<and> list_all isspace '' ''
   \<and> ''k'' \<noteq> [] \<and> list_all (\<lambda>c. \<not> isspace c) ''k''
   \<and> handle_line ''DEL k'' (KVStore_set ''k'' ''v'' KVStore_empty) =
         (''DELETED\<newline>'', snd (KVStore_remove ''k'' (KVStore_set ''k'' ''v'' KVStore_empty)))
   \<and> handle_line ''DEL k'' KVStore_empty = (''NOT_FOUND\<newline>'', snd (KVStore_remove ''k'' KVStore_empty))
   \<and> handle_line ''DEL '' KVStore_empty = (''ERROR: DEL requires key\<newline>'', KVStore_empty)"
  using del_line [of "[]" "'' ''" "''k''" "[]" "KVStore_set ''k'' ''v'' KVStore_empty"]
    del_line [of "[]" "'' ''" "''k''" "[]" "KVStore_empty"]
  by (simp add: isspace_def KVStore_set_def KVStore_empty_def)

text \<open>
  Claim C1 as it is written names the command \<^verbatim>\<open>DELETE\<close>. The code does not know that
  word: \<^verbatim>\<open>DELETE k\<close> on a store holding k is answered \<^verbatim>\<open>ERROR: Unknown command\<close> and
  k stays in the store; \<^verbatim>\<open>DELETE\<close> alone gets the same answer, not the one for a
  missing key.
\<close>

theorem delete_word_counterexample:
  "fst (handle_line ''DELETE k'' (KVStore_set ''k'' ''v'' KVStore_empty)) = ''ERROR: Unknown command\<newline>''
   \<and> fst (handle_line ''DELETE k'' (KVStore_set ''k'' ''v'' KVStore_empty)) \<noteq> ''DELETED\<newline>''
   \<and> data (snd (handle_line ''DELETE k'' (KVStore_set ''k'' ''v'' KVStore_empty))) ''k'' = Some ''v''
   \<and> fst (handle_line ''DELETE'' KVStore_empty) \<noteq> ''ERROR: DEL requires key\<newline>''"
  by (simp add: handle_line_def extract_word_def istringstream_of_def isspace_def KVStore_set_def)

text \<open>
  Claim C5. For every line whose first token is \<^verbatim>\<open>SET\<close>: with a key, and with a rest
  of the line after the key that is not empty once one leading space is erased, the
  store maps the key to that rest and the answer is \<^verbatim>\<open>OK\<close>; when the rest so
  stripped is empty, or there is no key at all, the answer is
  \<^verbatim>\<open>ERROR: SET requires key and value\<close> and the store is unchanged.
\<close>

theorem set_line:
  assumes "list_all isspace ws0" and "list_all isspace ws1"
  shows "(ws1 \<noteq> [] \<and> k \<noteq> [] \<and> list_all (\<lambda>c. \<not> isspace c) k \<and> (r = [] \<or> isspace (hd r))
            \<and> CHR ''\<newline>'' \<notin> set r \<longrightarrow>
            handle_line (ws0 @ ''SET'' @ ws1 @ k @ r) s =
              (if erase_leading_space r \<noteq> []
               then (''OK\<newline>'', KVStore_set k (erase_leading_space r) s)
               else (''ERROR: SET requires key and value\<newline>'', s)))
         \<and> handle_line (ws0 @ ''SET'' @ ws1) s = (''ERROR: SET requires key and value\<newline>'', s)"
  using handle_SET_key [OF assms(1,2), of k r s] handle_no_key(1) [OF assms, of s] by blast

theorem set_line_witness:
  "list_all isspace [] \<and> list_all isspace '' ''
   \<and> ''k'' \<noteq> [] \<and> list_all (\<lambda>c. \<not> isspace c) ''k'' \<and> isspace (hd ''  v w'')
   \<and> CHR ''\<newline>'' \<notin> set ''  v w''
   \<and> fst (handle_line ''SET k  v w'' KVStore_empty) = ''OK\<newline>''
   \<and> data (snd (handle_line ''SET k  v w'' KVStore_empty)) ''k'' = Some '' v w''
   \<and> handle_line ''SET k '' KVStore_empty = (''ERROR: SET requires key and value\<newline>'', KVStore_empty)
   \<and> handle_line ''SET '' KVStore_empty = (''ERROR: SET requires key and value\<newline>'', KVStore_empty)"
  using set_line [of "[]" "'' ''" "''k''" "''  v w''" KVStore_empty]
    set_line [of "[]" "'' ''" "''k''" "'' ''" KVStore_empty]
  by (simp add: isspace_def erase_leading_space_def KVStore_set_def)

text \<open>
  Claim C6. A \<^verbatim>\<open>GET\<close> for a key whose stored value is the empty string is answered
  like a \<^verbatim>\<open>GET\<close> for a key that is absent, with \<^verbatim>\<open>NOT_FOUND\<close>.
\<close>

theorem get_empty_value:
  assumes "list_all isspace ws0" and "list_all isspace ws1" and "ws1 \<noteq> []"
    and "k \<noteq> []" and "list_all (\<lambda>c. \<not> isspace c) k" and "r = [] \<or> isspace (hd r)"
    and "data s1 k = Some []" and "data s2 k = None"
  shows "fst (handle_line (ws0 @ ''GET'' @ ws1 @ k @ r) s1) = ''NOT_FOUND\<newline>''
         \<and> fst (handle_line (ws0 @ ''GET'' @ ws1 @ k @ r) s2) = ''NOT_FOUND\<newline>''"
  using assms(7,8) handle_GET_key [OF assms(1-6), of s1] handle_GET_key [OF assms(1-6), of s2]
  by (simp add: KVStore_get_def)

theorem get_empty_value_witness:
  "list_all isspace [] \<and> list_all isspace '' '' \<and> '' '' \<noteq> []
   \<and> ''k'' \<noteq> [] \<and> list_all (\<lambda>c. \<not> isspace c) ''k''
   \<and> data (KVStore_set ''k'' [] KVStore_empty) ''k'' = Some []
   \<and> data KVStore_empty ''k'' = None
   \<and> fst (handle_line ''GET k'' (KVStore_set ''k'' [] KVStore_empty)) = ''NOT_FOUND\<newline>''
   \<and> fst (handle_line ''GET k'' KVStore_empty) = ''NOT_FOUND\<newline>''"
  using get_empty_value [of "[]" "'' ''" "''k''" "[]" "KVStore_set ''k'' [] KVStore_empty" KVStore_empty]
  by (simp add: isspace_def KVStore_set_def KVStore_empty_def)

text \<open>
  Claim C10. On a \<^verbatim>\<open>GET\<close> or \<^verbatim>\<open>DEL\<close> line, whatever follows the key after a white
  space is ignored: the line is handled like the line that ends with the key, by
  the \<^verbatim>\<open>get\<close> or \<^verbatim>\<open>remove\<close> of that key alone.
\<close>

theorem extra_tokens_ignored:
  assumes "list_all isspace ws0" and "list_all isspace ws1" and "ws1 \<noteq> []"
    and "k \<noteq> []" and "list_all (\<lambda>c. \<not> isspace c) k" and "isspace sp"
  shows "handle_line (ws0 @ ''GET'' @ ws1 @ k @ sp # extra) s = handle_line (ws0 @ ''GET'' @ ws1 @ k) s
         \<and> handle_line (ws0 @ ''DEL'' @ ws1 @ k @ sp # extra) s = handle_line (ws0 @ ''DEL'' @ ws1 @ k) s
         \<and> handle_line (ws0 @ ''GET'' @ ws1 @ k @ sp # extra) s =
             (if fst (KVStore_get k s) \<noteq> [] then fst (KVStore_get k s) @ ''\<newline>''
              else ''NOT_FOUND\<newline>'', s)
         \<and> handle_line (ws0 @ ''DEL'' @ ws1 @ k @ sp # extra) s =
             (if k \<in> dom (data s) then ''DELETED\<newline>'' else ''NOT_FOUND\<newline>'',
              snd (KVStore_remove k s))"
proof -
  have r1: "sp # extra = [] \<or> isspace (hd (sp # extra))" using assms(6) by simp
  have r2: "([]::string) = [] \<or> isspace (hd [])" by simp
  show ?thesis
    using handle_GET_key [OF assms(1-5) r1, of s] handle_GET_key [OF assms(1-5) r2, of s]
      handle_DEL_key [OF assms(1-5) r1, of s] handle_DEL_key [OF assms(1-5) r2, of s]
    by simp
qed

theorem extra_tokens_ignored_witness:
  "list_all isspace [] \<and> list_all isspace '' '' \<and> '' '' \<noteq> []
   \<and> ''k'' \<noteq> [] \<and> list_all (\<lambda>c. \<not> isspace c) ''k'' \<and> isspace CHR '' ''
   \<and> handle_line ''GET k x y'' (KVStore_set ''k'' ''v'' KVStore_empty)
        = handle_line ''GET k'' (KVStore_set ''k'' ''v'' KVStore_empty)
   \<and> fst (handle_line ''GET k x y'' (KVStore_set ''k'' ''v'' KVStore_empty)) = ''v\<newline>''
   \<and> handle_line ''DEL k x y'' (KVStore_set ''k'' ''v'' KVStore_empty)
        = handle_line ''DEL k'' (KVStore_set ''k'' ''v'' KVStore_empty)
   \<and> fst (handle_line ''DEL k x y'' (KVStore_set ''k'' ''v'' KVStore_empty)) = ''DELETED\<newline>''"
  using extra_tokens_ignored [of "[]" "'' ''" "''k''" "CHR '' ''" "''x y''" "KVStore_set ''k'' ''v'' KVStore_empty"]
  by (simp add: isspace_def KVStore_set_def KVStore_get_def KVStore_remove_def KVStore_empty_def
        handle_line_def extract_word_def istringstream_of_def)

section \<open>Properties of the connection\<close>

text \<open>
  Claim C2. Cutting an input byte sequence in two deliveries should extract the same
  lines, in the same order, as one delivery of the whole. The handler breaks this on
  a zero byte: \<^verbatim>\<open>buffer += chunk; // append chunk to buffer\<close> appends the chunk as a
  C string, so the bytes that one \<^verbatim>\<open>read\<close> delivers after a zero byte never reach the
  buffer. On a fresh connection the bytes \<^verbatim>\<open>a\<close>, zero, \<^verbatim>\<open>b\<close>, line feed give the line
  \<^verbatim>\<open>ab\<close> when the cut falls after the zero byte, and no line at all in one delivery.
\<close>

theorem zero_byte_split_differs:
  "extracted (on_chunk writes_ok (on_chunk writes_ok (fresh_conn KVStore_empty) [CHR ''a'', CHR 0x00]) ''b\<newline>'')
     = [''ab'']
   \<and> extracted (on_chunk writes_ok (fresh_conn KVStore_empty) ([CHR ''a'', CHR 0x00] @ ''b\<newline>'')) = []
   \<and> extracted (on_chunk writes_ok (on_chunk writes_ok (fresh_conn KVStore_empty) [CHR ''a'', CHR 0x00]) ''b\<newline>'')
       \<noteq> extracted (on_chunk writes_ok (fresh_conn KVStore_empty) ([CHR ''a'', CHR 0x00] @ ''b\<newline>''))"
  by (simp add: fresh_conn_def on_chunk_def c_str_def writes_ok_def inner_loop.simps
        handle_line_def extract_word_def istringstream_of_def isspace_def)



text \<open>
  Claim C8. When the \<^verbatim>\<open>write\<close> of a response fails, the handler closes the socket and
  returns at once: the lines still in the buffer stay there, unhandled, and no further
  chunk is read.
\<close>

theorem write_failure_closes:
  assumes "l \<noteq> []" and "CHR ''\<newline>'' \<notin> set l" and "w (length (writes c)) < 0"
  shows "inner_loop w (c\<lparr>buffer := l @ CHR ''\<newline>'' # rest\<rparr>) =
           c\<lparr>buffer := rest, extracted := extracted c @ [l],
              store := snd (handle_line l (store c)),
              writes := writes c @ [fst (handle_line l (store c))], closed := True\<rparr>
         \<and> (chunk \<noteq> [] \<and> buffer c @ c_str chunk = l @ CHR ''\<newline>'' # rest \<longrightarrow>
              read_loop w (chunk # later) c =
                c\<lparr>buffer := rest, extracted := extracted c @ [l],
                   store := snd (handle_line l (store c)),
                   writes := writes c @ [fst (handle_line l (store c))], closed := True\<rparr>)"
proof -
  have step: "inner_loop w (c\<lparr>buffer := l @ CHR ''\<newline>'' # rest\<rparr>) =
           c\<lparr>buffer := rest, extracted := extracted c @ [l],
              store := snd (handle_line l (store c)),
              writes := writes c @ [fst (handle_line l (store c))], closed := True\<rparr>"
    using assms(1,3) by (simp add: inner_loop_line [OF assms(2)])
  have "read_loop w (chunk # later) c =
                c\<lparr>buffer := rest, extracted := extracted c @ [l],
                   store := snd (handle_line l (store c)),
                   writes := writes c @ [fst (handle_line l (store c))], closed := True\<rparr>"
    if "chunk \<noteq> []" and "buffer c @ c_str chunk = l @ CHR ''\<newline>'' # rest"
    using that step by (simp add: on_chunk_def)
  then show ?thesis using step by blast
qed

theorem write_failure_closes_witness:
  "''GET a'' \<noteq> [] \<and> CHR ''\<newline>'' \<notin> set ''GET a''
   \<and> write_fails_at 0 (length (writes (fresh_conn KVStore_empty))) < 0
   \<and> ''GET a\<newline>SET a 1\<newline>'' \<noteq> []
   \<and> buffer (fresh_conn KVStore_empty) @ c_str ''GET a\<newline>SET a 1\<newline>'' = ''GET a'' @ CHR ''\<newline>'' # ''SET a 1\<newline>''
   \<and> buffer (handle_client (write_fails_at 0) [''GET a\<newline>SET a 1\<newline>'', ''SET b 2\<newline>''] KVStore_empty) = ''SET a 1\<newline>''
   \<and> extracted (handle_client (write_fails_at 0) [''GET a\<newline>SET a 1\<newline>'', ''SET b 2\<newline>''] KVStore_empty) = [''GET a'']
   \<and> writes (handle_client (write_fails_at 0) [''GET a\<newline>SET a 1\<newline>'', ''SET b 2\<newline>''] KVStore_empty) = [''NOT_FOUND\<newline>'']
   \<and> closed (handle_client (write_fails_at 0) [''GET a\<newline>SET a 1\<newline>'', ''SET b 2\<newline>''] KVStore_empty)
   \<and> data (store (handle_client (write_fails_at 0) [''GET a\<newline>SET a 1\<newline>'', ''SET b 2\<newline>''] KVStore_empty)) ''a'' = None"
  using write_failure_closes [of "''GET a''" "write_fails_at 0" "fresh_conn KVStore_empty"
      "''SET a 1\<newline>''" "''GET a\<newline>SET a 1\<newline>''" "[''SET b 2\<newline>'']"]
  by (simp add: handle_client_def fresh_conn_def on_chunk_def c_str_def write_fails_at_def
        inner_loop.simps handle_line_def extract_word_def istringstream_of_def isspace_def
        KVStore_get_def KVStore_empty_def)

end
